theory Spec2Isabelle
  imports Complex_Main "HOL-Library.Sublist"
begin

section \<open>Errors and validation (src/src/cache.ts, lines 11-47)\<close>

text \<open>
  The two error classes of the module, and the rejection of a promise returned by
  \<open>execAsync\<close> (a pipeline that exits non-zero), which the module lets propagate.
\<close>

datatype error =
    ValidationError string
  | ReserveCacheError string
  | ExecError string

text \<open>
  \<open>checkPaths\<close>: \<open>!paths || paths.length === 0\<close>. An absent list (\<open>undefined\<close>) is
  \<open>None\<close>.
\<close>

definition checkPaths :: "string list option \<Rightarrow> error + unit" where
  "checkPaths paths =
     (if paths = None \<or> paths = Some [] then
        Inl (ValidationError
          ''Path Validation Error: At least one directory or file path is required'')
      else Inr ())"

text \<open>
  \<open>checkKey\<close>: the length test first, then the regular expression \<open>/^[^,]*$/\<close>, which
  accepts exactly the strings without a comma.
\<close>

definition checkKey :: "string \<Rightarrow> error + unit" where
  "checkKey key =
     (if length key > 255 then
        Inl (ValidationError
          (''Key Validation Error: '' @ key @ '' cannot be larger than 255 characters.''))
      else if \<not> list_all (\<lambda>c. c \<noteq> CHR '','') key then
        Inl (ValidationError
          (''Key Validation Error: '' @ key @ '' cannot contain commas.''))
      else Inr ())"

section \<open>Directory entries (fast-glob's \<open>Entry\<close> in object mode with stats)\<close>

record Stats =
  mtimeMs :: real
  sizeB :: nat

record Entry =
  name :: string
  path :: string
  stats :: "Stats option"

text \<open>\<open>String.prototype.indexOf\<close>: the first position of the needle, or \<open>-1\<close>.\<close>

fun indexOf :: "string \<Rightarrow> string \<Rightarrow> int" where
  "indexOf [] needle = (if needle = [] then 0 else - 1)"
| "indexOf (c # cs) needle =
     (if prefix needle (c # cs) then 0
      else (let r = indexOf cs needle in if r = - 1 then - 1 else r + 1))"

section \<open>The locator (src/src/cache.ts, lines 73-120)\<close>

text \<open>
  The inner loop of \<open>filterCacheFiles\<close>: every cache file whose name contains the
  matcher is pushed on \<open>potentialCaches\<close>.
\<close>

fun pushMatching :: "string \<Rightarrow> Entry list \<Rightarrow> Entry list \<Rightarrow> Entry list" where
  "pushMatching filenameMatcher [] potentialCaches = potentialCaches"
| "pushMatching filenameMatcher (cacheFile # rest) potentialCaches =
     pushMatching filenameMatcher rest
       (if indexOf (name cacheFile) filenameMatcher \<noteq> - 1
        then potentialCaches @ [cacheFile] else potentialCaches)"

text \<open>
  The outer loop: \<open>potentialCaches\<close> is declared once, before the loop, and is returned
  with the matcher as soon as it is non-empty; \<open>key: null\<close> is \<open>None\<close>.
\<close>

fun filterLoop ::
  "string list \<Rightarrow> Entry list \<Rightarrow> Entry list \<Rightarrow> string option \<times> Entry list" where
  "filterLoop [] cacheFiles potentialCaches = (None, potentialCaches)"
| "filterLoop (filenameMatcher # rest) cacheFiles potentialCaches =
     (let potentialCaches' = pushMatching filenameMatcher cacheFiles potentialCaches
      in if potentialCaches' \<noteq> [] then (Some filenameMatcher, potentialCaches')
         else filterLoop rest cacheFiles potentialCaches')"

definition filterCacheFiles ::
  "string list \<Rightarrow> Entry list \<Rightarrow> string option \<times> Entry list" where
  "filterCacheFiles filenameMatchers cacheFiles = filterLoop filenameMatchers cacheFiles []"

text \<open>
  \<open>a.stats?.mtimeMs || 0\<close>: a missing \<open>stats\<close> reads as 0; for a number that is not
  NaN, \<open>x || 0\<close> is \<open>x\<close>.
\<close>

definition mtimeOf :: "Entry \<Rightarrow> real" where
  "mtimeOf a = (case stats a of None \<Rightarrow> 0 | Some s \<Rightarrow> mtimeMs s)"

text \<open>The comparator handed to \<open>sort\<close>.\<close>

definition compareMtime :: "Entry \<Rightarrow> Entry \<Rightarrow> int" where
  "compareMtime a b =
     (let mtimeA = mtimeOf a; mtimeB = mtimeOf b
      in if mtimeA > mtimeB then 1 else if mtimeB > mtimeA then - 1 else 0)"

text \<open>
  \<open>Array.prototype.sort\<close> with a comparator is a stable sort (ECMAScript 2019): entries
  the comparator calls equal keep their order. It is modelled by insertion from the
  right, each entry going before the first one it does not compare greater than.
\<close>

fun insertBy :: "('a \<Rightarrow> 'a \<Rightarrow> int) \<Rightarrow> 'a \<Rightarrow> 'a list \<Rightarrow> 'a list" where
  "insertBy cmp x [] = [x]"
| "insertBy cmp x (y # ys) = (if cmp x y \<le> 0 then x # y # ys else y # insertBy cmp x ys)"

definition sortBy :: "('a \<Rightarrow> 'a \<Rightarrow> int) \<Rightarrow> 'a list \<Rightarrow> 'a list" where
  "sortBy cmp xs = foldr (insertBy cmp) xs []"

text \<open>\<open>Array.prototype.pop\<close>: the last element, \<open>undefined\<close> on an empty array.\<close>

definition pop :: "'a list \<Rightarrow> 'a option" where
  "pop xs = (if xs = [] then None else Some (last xs))"

text \<open>
  \<open>locateCacheFile\<close>. The guard \<open>!potentialCaches.length || !key\<close> is true for an empty
  list, for \<open>null\<close> and for the empty string.
\<close>

definition locateCacheFile :: "string list \<Rightarrow> Entry list \<Rightarrow> (string \<times> Entry) option" where
  "locateCacheFile filenameMatchers cacheFiles =
     (case filterCacheFiles filenameMatchers cacheFiles of
        (key, potentialCaches) \<Rightarrow>
          if potentialCaches = [] \<or> key = None \<or> key = Some [] then None
          else (case (key, pop (sortBy compareMtime potentialCaches)) of
                  (Some k, Some latestCacheFile) \<Rightarrow> Some (k, latestCacheFile)
                | _ \<Rightarrow> None))"

section \<open>The libraries the module calls\<close>

text \<open>
  \<open>filenamify\<close>, \<open>path\<close> and \<open>fast-glob\<close> are dependencies of the repository, not part
  of it. \<open>filenamify\<close> and the functions of \<open>path\<close> are modelled here after their
  documented behaviour, so that the module's functions compute on concrete inputs. What
  \<open>fast-glob\<close> lists and what the shell does with a command line are not modelled: they
  are given by the world the module runs in.
\<close>

subsection \<open>\<open>filenamify\<close> (version 4, default options)\<close>

text \<open>
  In this order: reserved characters (angle brackets, colon, double quote, slash,
  backslash, bar, question mark, star and the control characters) become \<open>!\<close>; a
  leading run of dots becomes one \<open>!\<close>; trailing dots are dropped; a run of
  \<open>!\<close> becomes one; a string longer than one character loses a leading and a trailing
  \<open>!\<close>; a reserved Windows name gets a \<open>!\<close> appended; the result is cut to 100
  characters.
\<close>

definition reservedChar :: "char \<Rightarrow> bool" where
  "reservedChar c =
     (c \<in> set ''<>:/|?*'' \<or> c = CHR 0x22 \<or> c = CHR 0x5C \<or> (of_char c :: nat) < 32)"

definition controlChar :: "char \<Rightarrow> bool" where
  "controlChar c =
     ((of_char c :: nat) < 32 \<or> (128 \<le> (of_char c :: nat) \<and> (of_char c :: nat) \<le> 159))"

definition replaceRelativePath :: "string \<Rightarrow> string" where
  "replaceRelativePath s =
     (case s of [] \<Rightarrow> []
      | c # cs \<Rightarrow> if c = CHR ''.'' then CHR ''!'' # dropWhile (\<lambda>d. d = CHR ''.'') cs else s)"

definition dropTrailingPeriods :: "string \<Rightarrow> string" where
  "dropTrailingPeriods s = rev (dropWhile (\<lambda>d. d = CHR ''.'') (rev s))"

fun trimRepeated :: "string \<Rightarrow> string" where
  "trimRepeated (c # d # cs) =
     (if c = CHR ''!'' \<and> d = CHR ''!'' then trimRepeated (d # cs)
      else c # trimRepeated (d # cs))"
| "trimRepeated cs = cs"

definition stripOuter :: "string \<Rightarrow> string" where
  "stripOuter s =
     (let s1 = (case s of [] \<Rightarrow> [] | c # cs \<Rightarrow> if c = CHR ''!'' then cs else s)
      in if s1 \<noteq> [] \<and> last s1 = CHR ''!'' then butlast s1 else s1)"

definition lowerAscii :: "char \<Rightarrow> char" where
  "lowerAscii c =
     (if 65 \<le> (of_char c :: nat) \<and> (of_char c :: nat) \<le> 90
      then char_of ((of_char c :: nat) + 32) else c)"

definition windowsName :: "string \<Rightarrow> bool" where
  "windowsName s =
     (let l = map lowerAscii s
      in l \<in> set [''con'', ''prn'', ''aux'', ''nul'']
         \<or> (length l = 4 \<and> take 3 l \<in> set [''com'', ''lpt'']
             \<and> last l \<in> set ''0123456789''))"

definition filenamify :: "string \<Rightarrow> string" where
  "filenamify key =
     (let s1 = map (\<lambda>c. if reservedChar c then CHR ''!'' else c) key;
          s2 = map (\<lambda>c. if controlChar c then CHR ''!'' else c) s1;
          s3 = replaceRelativePath s2;
          s4 = dropTrailingPeriods s3;
          s5 = trimRepeated s4;
          s6 = (if length s5 > 1 then stripOuter s5 else s5);
          s7 = (if windowsName s6 then s6 @ ''!'' else s6)
      in take 100 s7)"

subsection \<open>\<open>path.join\<close>, \<open>path.dirname\<close>, \<open>path.basename\<close> (POSIX)\<close>

fun splitSlash :: "string \<Rightarrow> string list" where
  "splitSlash [] = [[]]"
| "splitSlash (c # cs) =
     (if c = CHR ''/'' then [] # splitSlash cs
      else (case splitSlash cs of [] \<Rightarrow> [[c]] | s # ss \<Rightarrow> (c # s) # ss))"

fun joinSlash :: "string list \<Rightarrow> string" where
  "joinSlash [] = []"
| "joinSlash [s] = s"
| "joinSlash (s # ss) = s @ ''/'' @ joinSlash ss"

text \<open>
  \<open>normalizeString\<close>: empty and \<open>.\<close> segments are dropped, \<open>..\<close> removes the segment
  before it, or is kept when there is none and the path is relative.
\<close>

fun normSegments :: "bool \<Rightarrow> string list \<Rightarrow> string list \<Rightarrow> string list" where
  "normSegments allowAboveRoot [] res = res"
| "normSegments allowAboveRoot (s # ss) res =
     normSegments allowAboveRoot ss
       (if s = [] \<or> s = ''.'' then res
        else if s = ''..'' then
          (if res \<noteq> [] \<and> last res \<noteq> ''..'' then butlast res
           else if allowAboveRoot then res @ [''..''] else res)
        else res @ [s])"

definition normalizePath :: "string \<Rightarrow> string" where
  "normalizePath p =
     (if p = [] then ''.''
      else
        (let isAbsolute = (hd p = CHR ''/'');
             trailingSeparator = (last p = CHR ''/'');
             q = joinSlash (normSegments (\<not> isAbsolute) (splitSlash p) [])
         in if q = [] then
              (if isAbsolute then ''/'' else if trailingSeparator then ''./'' else ''.'')
            else (if isAbsolute then ''/'' else [])
                   @ q @ (if trailingSeparator then ''/'' else [])))"

definition join :: "string list \<Rightarrow> string" where
  "join args =
     (let joined = filter (\<lambda>a. a \<noteq> []) args
      in if joined = [] then ''.'' else normalizePath (joinSlash joined))"

definition dirname :: "string \<Rightarrow> string" where
  "dirname p =
     (case p of [] \<Rightarrow> ''.''
      | c # cs \<Rightarrow>
          (let hasRoot = (c = CHR ''/'');
               r = dropWhile (\<lambda>d. d \<noteq> CHR ''/'') (dropWhile (\<lambda>d. d = CHR ''/'') (rev cs))
           in (case r of [] \<Rightarrow> (if hasRoot then ''/'' else ''.'')
               | _ # front \<Rightarrow>
                   if hasRoot \<and> front = [] then ''//'' else c # rev front)))"

definition basename :: "string \<Rightarrow> string" where
  "basename p =
     rev (takeWhile (\<lambda>d. d \<noteq> CHR ''/'') (dropWhile (\<lambda>d. d = CHR ''/'') (rev p)))"

subsection \<open>The process: environment, file system, shell, log\<close>

text \<open>
  \<open>core.info\<close> lines, kept structured: the text of the restore message formats a date
  and a byte count through further libraries.
\<close>

datatype LogLine =
    RestoringCache string "Stats option"
  | SaveCacheLine string

text \<open>
  A file system gives, for a directory, the regular files directly inside it in the
  order a scan reports them (none for a directory that does not exist).
\<close>

type_synonym FileSystem = "string \<Rightarrow> Entry list"

text \<open>
  What the module reads and changes. \<open>glob\<close> is \<open>fast-glob\<close> as the module calls it
  (object mode, files only, with stats, unique): the entries it lists for a file system,
  a list of patterns and a working directory. \<open>sh\<close> is the shell behind \<open>exec\<close>: for
  a command line and a file system, whether the command exits with status zero and the
  file system afterwards. Both are whatever the world makes them: the patterns and the
  command lines are the module's, their meaning is not. The relay of a child's output to
  the log is not modelled.
\<close>

record World =
  env_CACHE_DIR :: "string option"
  env_GITHUB_REPOSITORY :: "string option"
  fs :: FileSystem
  glob :: "FileSystem \<Rightarrow> string list \<Rightarrow> string \<Rightarrow> Entry list"
  sh :: "string \<Rightarrow> FileSystem \<Rightarrow> bool \<times> FileSystem"
  executed :: "string list"
  infoLog :: "LogLine list"

text \<open>\<open>x || d\<close> on an optional string: \<open>undefined\<close> and the empty string give \<open>d\<close>.\<close>

definition orElse :: "string option \<Rightarrow> string \<Rightarrow> string" where
  "orElse x d = (case x of None \<Rightarrow> d | Some s \<Rightarrow> if s = [] then d else s)"

definition execAsync :: "string \<Rightarrow> World \<Rightarrow> (error + unit) \<times> World" where
  "execAsync cmd w =
     (case sh w cmd (fs w) of
        (ok, fs') \<Rightarrow>
          (if ok then Inr () else Inl (ExecError cmd),
           w\<lparr>fs := fs', executed := executed w @ [cmd]\<rparr>))"

definition info :: "LogLine \<Rightarrow> World \<Rightarrow> World" where
  "info l w = w\<lparr>infoLog := infoLog w @ [l]\<rparr>"

text \<open>The call \<open>fg(patterns, {cwd, objectMode, onlyFiles, stats, unique})\<close>.\<close>

definition fg :: "string list \<Rightarrow> string \<Rightarrow> World \<Rightarrow> Entry list" where
  "fg patterns cwd w = glob w (fs w) patterns cwd"

section \<open>The entry points (src/src/cache.ts, lines 122-227)\<close>

definition getCacheDirPath :: "World \<Rightarrow> string" where
  "getCacheDirPath w =
     join [orElse (env_CACHE_DIR w) ''/media/cache/'', orElse (env_GITHUB_REPOSITORY w) []]"

text \<open>
  \<open>Array.isArray(restoreKeys) && restoreKeys.length ? [primaryKey, ...restoreKeys] :
  [primaryKey]\<close>, each mapped through \<open>filenamify\<close>.
\<close>

definition filenameMatchersOf :: "string \<Rightarrow> string list option \<Rightarrow> string list" where
  "filenameMatchersOf primaryKey restoreKeys =
     map filenamify
       (case restoreKeys of
          None \<Rightarrow> [primaryKey]
        | Some rks \<Rightarrow> if length rks \<noteq> 0 then primaryKey # rks else [primaryKey])"

definition restoreCmd :: "string \<Rightarrow> string \<Rightarrow> string" where
  "restoreCmd cachePath baseDir =
     ''lz4 -d -v -c '' @ cachePath @ '' 2>/dev/null | tar xf - -C '' @ baseDir"

definition restoreCache ::
  "World \<Rightarrow> string list option \<Rightarrow> string \<Rightarrow> string list option
     \<Rightarrow> (error + string option) \<times> World" where
  "restoreCache w paths primaryKey restoreKeys =
     (case checkKey primaryKey of
        Inl e \<Rightarrow> (Inl e, w)
      | Inr _ \<Rightarrow>
     (case checkPaths paths of
        Inl e \<Rightarrow> (Inl e, w)
      | Inr _ \<Rightarrow>
     (case paths of
        Some (path0 # _) \<Rightarrow>
          (let cacheDir = getCacheDirPath w;
               filenameMatchers = filenameMatchersOf primaryKey restoreKeys;
               patterns = map (\<lambda>matcher. matcher @ ''*'') filenameMatchers;
               cacheFiles = fg patterns cacheDir w
           in (case locateCacheFile filenameMatchers cacheFiles of
                 None \<Rightarrow> (Inr None, w)
               | Some (key, cacheFile) \<Rightarrow>
                   (let cachePath = join [cacheDir, path cacheFile];
                        baseDir = dirname path0;
                        cmd = restoreCmd cachePath baseDir;
                        w1 = info (RestoringCache (name cacheFile) (stats cacheFile)) w
                    in (case execAsync cmd w1 of
                          (Inl e, w2) \<Rightarrow> (Inl e, w2)
                        | (Inr _, w2) \<Rightarrow> (Inr (Some key), w2)))))
      | _ \<Rightarrow> (Inl (ValidationError []), w))))"

text \<open>
  The last branch of \<open>restoreCache\<close> and of \<open>saveCache\<close> is never taken: \<open>checkPaths\<close>
  has thrown for a list that is absent or empty.
\<close>

definition saveCmd :: "string \<Rightarrow> string \<Rightarrow> string \<Rightarrow> string" where
  "saveCmd baseDir folderName cachePath =
     ''tar cf - -C '' @ baseDir @ '' '' @ folderName @ '' | lz4 -v > '' @ cachePath
       @ '' 2>/dev/null''"

definition saveCache ::
  "World \<Rightarrow> string list option \<Rightarrow> string \<Rightarrow> (error + nat) \<times> World" where
  "saveCache w paths key =
     (case checkPaths paths of
        Inl e \<Rightarrow> (Inl e, w)
      | Inr _ \<Rightarrow>
     (case checkKey key of
        Inl e \<Rightarrow> (Inl e, w)
      | Inr _ \<Rightarrow>
     (case paths of
        Some (path0 # _) \<Rightarrow>
          (let cacheDir = getCacheDirPath w;
               cacheName = filenamify key @ ''.tar.lz4'';
               cachePath = join [cacheDir, cacheName];
               baseDir = dirname path0;
               folderName = basename path0
           in (case execAsync (''mkdir -p '' @ cacheDir) w of
                 (Inl e, w1) \<Rightarrow> (Inl e, w1)
               | (Inr _, w1) \<Rightarrow>
                   (let cmd = saveCmd baseDir folderName cachePath;
                        w2 = info (SaveCacheLine cacheName) w1
                    in (case execAsync cmd w2 of
                          (Inl e, w3) \<Rightarrow> (Inl e, w3)
                        | (Inr _, w3) \<Rightarrow> (Inr 420, w3)))))
      | _ \<Rightarrow> (Inl (ValidationError []), w))))"

section \<open>Notions used in the statements\<close>

text \<open>
  The files of a listing that pass the test of \<open>filterCacheFiles\<close> for a matcher, and
  whether there is one.
\<close>

definition matching :: "string \<Rightarrow> Entry list \<Rightarrow> Entry list" where
  "matching m files = filter (\<lambda>f. indexOf (name f) m \<noteq> - 1) files"

definition hasMatch :: "Entry list \<Rightarrow> string \<Rightarrow> bool" where
  "hasMatch files m = list_ex (\<lambda>f. indexOf (name f) m \<noteq> - 1) files"

text \<open>The listing \<open>restoreCache\<close> hands to the locator.\<close>

definition cacheFilesOf :: "World \<Rightarrow> string \<Rightarrow> string list option \<Rightarrow> Entry list" where
  "cacheFilesOf w primaryKey restoreKeys =
     fg (map (\<lambda>matcher. matcher @ ''*'') (filenameMatchersOf primaryKey restoreKeys))
        (getCacheDirPath w) w"

subsection \<open>Concrete worlds\<close>

text \<open>
  A regular file directly inside the scanned directory (its path relative to the
  directory is its name), with a modification time.
\<close>

definition entry :: "string \<Rightarrow> real \<Rightarrow> Entry" where
  "entry n t = \<lparr>name = n, path = n, stats = Some \<lparr>mtimeMs = t, sizeB = 0\<rparr>\<rparr>"

text \<open>
  What \<open>fast-glob\<close> lists in the worlds below, for the patterns they are asked. A
  pattern that is a plain text followed by a star lists the names that start with the
  text; plain means made of letters, digits, \<open>-\<close>, \<open>_\<close>, \<open>.\<close>, \<open>,\<close> and \<open>!\<close> and not
  starting with \<open>.\<close> or \<open>!\<close>. Such a text has no glob syntax in it: \<open>!\<close> negates only
  at the start of a pattern or before a parenthesis, and a comma separates only inside
  braces. Names that start with a dot are not listed (the option \<open>dot\<close> is off). For a
  list with any other pattern \<open>plainGlob\<close> leaves open what is listed; a world that is
  asked such a pattern says what is listed with \<open>answering\<close>.
\<close>

definition plainChar :: "char \<Rightarrow> bool" where
  "plainChar c =
     (c \<in> set ''abcdefghijklmnopqrstuvwxyzABCDEFGHIJKLMNOPQRSTUVWXYZ0123456789-_.,!'')"

definition plainPattern :: "string \<Rightarrow> bool" where
  "plainPattern p =
     (p \<noteq> [] \<and> last p = CHR ''*'' \<and> list_all plainChar (butlast p)
      \<and> \<not> prefix ''.'' p \<and> \<not> prefix ''!'' p)"

definition plainGlob :: "FileSystem \<Rightarrow> string list \<Rightarrow> string \<Rightarrow> Entry list" where
  "plainGlob fsys patterns cwd =
     (if list_all plainPattern patterns then
        filter (\<lambda>e. list_ex (\<lambda>p. prefix (butlast p) (name e)) patterns
                     \<and> \<not> prefix ''.'' (name e))
          (fsys cwd)
      else undefined)"

text \<open>
  A glob that, asked exactly \<open>patterns\<close>, lists the files whose names satisfy
  \<open>listed\<close>, and answers as \<open>g\<close> otherwise.
\<close>

definition answering ::
  "string list \<Rightarrow> (string \<Rightarrow> bool)
     \<Rightarrow> (FileSystem \<Rightarrow> string list \<Rightarrow> string \<Rightarrow> Entry list)
     \<Rightarrow> FileSystem \<Rightarrow> string list \<Rightarrow> string \<Rightarrow> Entry list" where
  "answering patterns listed g fsys ps cwd =
     (if ps = patterns then filter (\<lambda>e. listed (name e)) (fsys cwd) else g fsys ps cwd)"

text \<open>A shell in which every command succeeds and leaves the listings as they are.\<close>

definition idleShell :: "string \<Rightarrow> FileSystem \<Rightarrow> bool \<times> FileSystem" where
  "idleShell cmd fsys = (True, fsys)"

text \<open>
  A shell in which the command \<open>cmd\<close> succeeds and leaves the file \<open>e\<close> in the
  directory \<open>dir\<close>, replacing a file of the same name; every other command succeeds
  and changes nothing.
\<close>

definition packShell ::
  "string \<Rightarrow> string \<Rightarrow> Entry \<Rightarrow> string \<Rightarrow> FileSystem \<Rightarrow> bool \<times> FileSystem" where
  "packShell cmd dir e c fsys =
     (if c = cmd then (True, fsys(dir := filter (\<lambda>x. name x \<noteq> name e) (fsys dir) @ [e]))
      else (True, fsys))"

text \<open>
  A runner with \<open>CACHE_DIR\<close> unset and \<open>GITHUB_REPOSITORY\<close> set to \<open>o/r\<close>, whose cache
  directory \<open>/media/cache/o/r\<close> holds the given files, and whose glob is \<open>plainGlob\<close>.
\<close>

definition runner :: "Entry list \<Rightarrow> (string \<Rightarrow> FileSystem \<Rightarrow> bool \<times> FileSystem) \<Rightarrow> World" where
  "runner files shell =
     \<lparr>env_CACHE_DIR = None, env_GITHUB_REPOSITORY = Some ''o/r'',
      fs = (\<lambda>d. if d = ''/media/cache/o/r'' then files else []),
      glob = plainGlob, sh = shell, executed = [], infoLog = []\<rparr>"

section \<open>The loops in closed form\<close>

lemma indexOf_ge: "- 1 \<le> indexOf s m"
  by (induction s) (auto simp: Let_def)

lemma indexOf_sublist: "indexOf s m \<noteq> - 1 \<longleftrightarrow> sublist m s"
proof (induction s)
  case Nil
  then show ?case by simp
next
  case (Cons c cs)
  have "indexOf cs m + 1 \<noteq> - 1" using indexOf_ge [of cs m] by arith
  then show ?case using Cons
    by (auto simp: Let_def sublist_Cons_right)
qed

lemma indexOf_prefix: "prefix m s \<Longrightarrow> indexOf s m = 0"
  by (cases s) auto

lemma pushMatching_filter: "pushMatching m files acc = acc @ matching m files"
  by (induction files arbitrary: acc) (auto simp: matching_def)

lemma hasMatch_matching: "hasMatch files m \<longleftrightarrow> matching m files \<noteq> []"
  by (auto simp: hasMatch_def matching_def list_ex_iff filter_empty_conv)

lemma filterLoop_find:
  "filterLoop ms files [] =
     (case find (hasMatch files) ms of
        None \<Rightarrow> (None, [])
      | Some k \<Rightarrow> (Some k, matching k files))"
  by (induction ms) (auto simp: pushMatching_filter hasMatch_matching Let_def)

lemma find_hasMatch: "find (hasMatch files) ms = Some k \<Longrightarrow> matching k files \<noteq> []"
  by (auto simp: find_Some_iff hasMatch_matching)

subsection \<open>The sort is the stable sort by modification time\<close>

lemma insertBy_insort: "insertBy compareMtime x xs = insort_key mtimeOf x xs"
  by (induction xs) (auto simp: compareMtime_def Let_def)

lemma sortBy_sort_key: "sortBy compareMtime xs = sort_key mtimeOf xs"
  unfolding sortBy_def sort_key_def
  by (induction xs) (auto simp: insertBy_insort)

lemma sort_key_Nil_iff: "sort_key f xs = [] \<longleftrightarrow> xs = []"
  by (metis set_sort set_empty)

lemma sorted_le_last: "sorted xs \<Longrightarrow> x \<in> set xs \<Longrightarrow> x \<le> last xs"
  by (induction xs) auto

lemma last_filter_keep: "xs \<noteq> [] \<Longrightarrow> P (last xs) \<Longrightarrow> last (filter P xs) = last xs"
proof (induction xs)
  case Nil
  then show ?case by simp
next
  case (Cons x xs)
  show ?case
  proof (cases "xs = []")
    case True
    with Cons.prems show ?thesis by simp
  next
    case False
    with Cons.prems have P: "P (last xs)" by simp
    with False have "filter P xs \<noteq> []"
      by (auto simp: filter_empty_conv intro!: bexI [of _ "last xs"])
    with Cons.IH [OF False P] False show ?thesis by simp
  qed
qed

lemma last_sort_key_max:
  assumes "x \<in> set xs"
  shows "f x \<le> f (last (sort_key f xs))"
proof -
  let ?s = "sort_key f xs"
  have ne: "?s \<noteq> []" using assms by (metis set_sort empty_iff set_empty)
  have "f x \<in> set (map f ?s)" using assms by simp
  moreover have "sorted (map f ?s)" by simp
  ultimately have "f x \<le> last (map f ?s)" by (rule sorted_le_last [rotated])
  then show ?thesis using ne by (simp add: last_map)
qed

lemma last_sort_key_stable:
  assumes "xs \<noteq> []"
  shows "last (sort_key f xs) = last (filter (\<lambda>y. f y = f (last (sort_key f xs))) xs)"
proof -
  let ?s = "sort_key f xs"
  let ?k = "f (last ?s)"
  have ne: "?s \<noteq> []" using assms by (metis set_sort set_empty)
  have "last (filter (\<lambda>y. f y = ?k) ?s) = last ?s"
    by (rule last_filter_keep [OF ne]) simp
  then show ?thesis by (simp add: sort_key_stable)
qed

subsection \<open>The locator in closed form\<close>

lemma locateCacheFile_char:
  "locateCacheFile ms files =
     (case find (hasMatch files) ms of
        None \<Rightarrow> None
      | Some k \<Rightarrow> if k = [] then None
                  else Some (k, last (sort_key mtimeOf (matching k files))))"
  by (auto simp: locateCacheFile_def filterCacheFiles_def filterLoop_find pop_def
        sortBy_sort_key sort_key_Nil_iff split: option.splits dest: find_hasMatch)

section \<open>Validation and the shape of a valid call\<close>

lemma checkKey_ok: "length key \<le> 255 \<Longrightarrow> CHR '','' \<notin> set key \<Longrightarrow> checkKey key = Inr ()"
  by (auto simp: checkKey_def list_all_iff)

lemma checkKey_bad:
  "length key > 255 \<or> CHR '','' \<in> set key \<Longrightarrow> \<exists>msg. checkKey key = Inl (ValidationError msg)"
  by (auto simp: checkKey_def list_all_iff)

lemma checkKey_cases: "checkKey key = Inr () \<or> (\<exists>msg. checkKey key = Inl (ValidationError msg))"
  by (auto simp: checkKey_def)

lemma checkPaths_ok: "checkPaths (Some (p # ps)) = Inr ()"
  by (simp add: checkPaths_def)

lemma checkPaths_bad:
  "paths = None \<or> paths = Some [] \<Longrightarrow> \<exists>msg. checkPaths paths = Inl (ValidationError msg)"
  by (auto simp: checkPaths_def)

lemma restoreCache_valid:
  assumes "length pk \<le> 255" and "CHR '','' \<notin> set pk"
  shows "restoreCache w (Some (p # ps)) pk rks =
     (case locateCacheFile (filenameMatchersOf pk rks) (cacheFilesOf w pk rks) of
        None \<Rightarrow> (Inr None, w)
      | Some (k, c) \<Rightarrow>
          (case execAsync (restoreCmd (join [getCacheDirPath w, path c]) (dirname p))
                  (info (RestoringCache (name c) (stats c)) w) of
             (Inl e, w2) \<Rightarrow> (Inl e, w2)
           | (Inr _, w2) \<Rightarrow> (Inr (Some k), w2)))"
  using assms
  by (simp add: restoreCache_def checkKey_ok checkPaths_ok cacheFilesOf_def Let_def
        split: option.splits prod.splits sum.splits)

lemma saveCache_valid:
  assumes "length key \<le> 255" and "CHR '','' \<notin> set key"
  shows "saveCache w (Some (p # ps)) key =
     (case execAsync (''mkdir -p '' @ getCacheDirPath w) w of
        (Inl e, w1) \<Rightarrow> (Inl e, w1)
      | (Inr _, w1) \<Rightarrow>
          (case execAsync
                  (saveCmd (dirname p) (basename p)
                     (join [getCacheDirPath w, filenamify key @ ''.tar.lz4'']))
                  (info (SaveCacheLine (filenamify key @ ''.tar.lz4'')) w1) of
             (Inl e, w3) \<Rightarrow> (Inl e, w3)
           | (Inr _, w3) \<Rightarrow> (Inr 420, w3)))"
  using assms
  by (simp add: saveCache_def checkKey_ok checkPaths_ok Let_def
        split: option.splits prod.splits sum.splits)

lemma executed_execAsync: "execAsync cmd w = (r, w') \<Longrightarrow> executed w' = executed w @ [cmd]"
  by (auto simp: execAsync_def split: prod.splits)

lemma executed_info: "executed (info l w) = executed w"
  by (simp add: info_def)

lemma restoreCache_Some:
  assumes "restoreCache w (Some (p # ps)) pk rks = (Inr (Some k), w')"
  shows "\<exists>c. locateCacheFile (filenameMatchersOf pk rks) (cacheFilesOf w pk rks) = Some (k, c)
            \<and> executed w' = executed w @ [restoreCmd (join [getCacheDirPath w, path c]) (dirname p)]"
proof -
  have ok: "checkKey pk = Inr ()"
    using assms checkKey_cases [of pk] by (auto simp: restoreCache_def)
  show ?thesis
    using assms
    by (auto simp: restoreCache_def ok checkPaths_ok cacheFilesOf_def Let_def executed_info
          split: option.splits prod.splits sum.splits dest!: executed_execAsync)
qed

lemma saveCache_Inr:
  assumes "saveCache w (Some (p # ps)) key = (Inr n, w')"
  shows "executed w' = executed w @
           [''mkdir -p '' @ getCacheDirPath w,
            saveCmd (dirname p) (basename p)
              (join [getCacheDirPath w, filenamify key @ ''.tar.lz4''])]"
proof -
  have ok: "checkKey key = Inr ()"
    using assms checkKey_cases [of key] by (auto simp: saveCache_def checkPaths_ok)
  show ?thesis
    using assms
    by (auto simp: saveCache_def ok checkPaths_ok Let_def executed_info
          split: option.splits prod.splits sum.splits dest!: executed_execAsync)
qed

text \<open>
  Claim C5. A key longer than 255 characters, a key that contains a comma, and a path
  list that is absent or empty make both \<open>restoreCache\<close> and \<open>saveCache\<close> fail with a
  \<open>ValidationError\<close>, and the world they return is the world they were given: nothing
  was executed, written or logged.
\<close>

theorem validation_rejects:
  assumes "length key > 255 \<or> CHR '','' \<in> set key \<or> paths = None \<or> paths = Some []"
  shows "(\<exists>msg. restoreCache w paths key restoreKeys = (Inl (ValidationError msg), w))
       \<and> (\<exists>msg. saveCache w paths key = (Inl (ValidationError msg), w))"
proof -
  consider (key) "length key > 255 \<or> CHR '','' \<in> set key"
    | (paths) "paths = None \<or> paths = Some []"
    using assms by blast
  then show ?thesis
  proof cases
    case key
    then obtain msg where k: "checkKey key = Inl (ValidationError msg)"
      using checkKey_bad by blast
    have "\<exists>m. restoreCache w paths key restoreKeys = (Inl (ValidationError m), w)"
      by (simp add: restoreCache_def k)
    moreover have "\<exists>m. saveCache w paths key = (Inl (ValidationError m), w)"
      using checkPaths_bad [of paths]
      by (cases "checkPaths paths") (auto simp: saveCache_def k checkPaths_def split: if_splits)
    ultimately show ?thesis by blast
  next
    case paths
    then obtain msg where p: "checkPaths paths = Inl (ValidationError msg)"
      using checkPaths_bad by blast
    have "\<exists>m. saveCache w paths key = (Inl (ValidationError m), w)"
      by (simp add: saveCache_def p)
    moreover have "\<exists>m. restoreCache w paths key restoreKeys = (Inl (ValidationError m), w)"
      using checkKey_cases [of key] by (auto simp: restoreCache_def p)
    ultimately show ?thesis by blast
  qed
qed

theorem validation_rejects_witness:
  "(\<exists>msg. restoreCache (runner [entry ''a.tar.lz4'' 1] idleShell) (Some [''/w/data'']) ''a,b'' None
            = (Inl (ValidationError msg), runner [entry ''a.tar.lz4'' 1] idleShell))
   \<and> (\<exists>msg. saveCache (runner [entry ''a.tar.lz4'' 1] idleShell) (Some [''/w/data'']) ''a,b''
            = (Inl (ValidationError msg), runner [entry ''a.tar.lz4'' 1] idleShell))
   \<and> (\<exists>msg. restoreCache (runner [] idleShell) (Some [''/w/data'']) (replicate 256 (CHR ''k'')) None
            = (Inl (ValidationError msg), runner [] idleShell))
   \<and> (\<exists>msg. saveCache (runner [] idleShell) (Some []) ''a'' = (Inl (ValidationError msg), runner [] idleShell))
   \<and> (\<exists>msg. restoreCache (runner [] idleShell) None ''a'' None = (Inl (ValidationError msg), runner [] idleShell))"
  using validation_rejects [of "''a,b''" "Some [''/w/data'']" "runner [entry ''a.tar.lz4'' 1] idleShell" None]
        validation_rejects [of "replicate 256 (CHR ''k'')" "Some [''/w/data'']" "runner [] idleShell" None]
        validation_rejects [of "''a''" "Some []" "runner [] idleShell" None]
        validation_rejects [of "''a''" None "runner [] idleShell" None]
  by simp

text \<open>
  Claim C9. \<open>ReserveCacheError\<close> is an error kind of the module, and no call of
  \<open>restoreCache\<close> or \<open>saveCache\<close> ends with it, whatever the arguments and the world.
\<close>

theorem never_reserve_error:
  "fst (restoreCache w paths primaryKey restoreKeys) \<noteq> Inl (ReserveCacheError msg)
   \<and> fst (saveCache w paths key) \<noteq> Inl (ReserveCacheError msg)"
proof
  show "fst (restoreCache w paths primaryKey restoreKeys) \<noteq> Inl (ReserveCacheError msg)"
    by (auto simp: restoreCache_def checkKey_def checkPaths_def execAsync_def Let_def
          split: option.splits list.splits prod.splits sum.splits if_splits)
  show "fst (saveCache w paths key) \<noteq> Inl (ReserveCacheError msg)"
    by (auto simp: saveCache_def checkKey_def checkPaths_def execAsync_def Let_def
          split: option.splits list.splits prod.splits sum.splits if_splits)
qed

theorem never_reserve_error_witness:
  "fst (restoreCache (runner [] idleShell) (Some [''/w/data'']) ''k'' None)
     \<noteq> Inl (ReserveCacheError ''Cache already reserved'')
   \<and> fst (saveCache (runner [] idleShell) (Some [''/w/data'']) ''k'')
     \<noteq> Inl (ReserveCacheError ''Cache already reserved'')"
  by (rule never_reserve_error)

section \<open>The locator: which key, which entry\<close>

lemma locateCacheFile_key:
  "map_option fst (locateCacheFile ms files) = Some k
     \<longleftrightarrow> find (hasMatch files) ms = Some k \<and> k \<noteq> []"
  by (auto simp: locateCacheFile_char split: option.splits)

lemma filenameMatchersOf_Cons:
  "filenameMatchersOf pk rks
     = filenamify pk # map filenamify (case rks of None \<Rightarrow> [] | Some r \<Rightarrow> r)"
  by (cases rks) (auto simp: filenameMatchersOf_def)

lemma hasMatch_names: "hasMatch files m = list_ex (\<lambda>n. indexOf n m \<noteq> - 1) (map name files)"
  by (simp add: hasMatch_def list_ex_iff)

lemma restoreCache_found:
  assumes "length pk \<le> 255" and "CHR '','' \<notin> set pk"
    and "find (hasMatch (cacheFilesOf w pk rks)) (filenameMatchersOf pk rks) = Some k"
    and "k \<noteq> []"
  shows "fst (restoreCache w (Some (p # ps)) pk rks) = Inr (Some k)
       \<or> (\<exists>cmd. fst (restoreCache w (Some (p # ps)) pk rks) = Inl (ExecError cmd))"
  using assms
  by (auto simp: restoreCache_valid locateCacheFile_char execAsync_def split: prod.splits)

text \<open>
  What the locator returns with a key, in the terms of its own test (the name of the
  file contains the key). When it reports the key \<open>k\<close>, the entry \<open>c\<close> it returns is
  a listed file that passes the test for \<open>k\<close>, no listed file that passes it has a
  larger modification time, and \<open>c\<close> is the last one in listing order among those that
  pass it with the same modification time.
\<close>

lemma latest_entry_selected:
  assumes "map_option fst (locateCacheFile filenameMatchers files) = Some k"
  shows "\<exists>c. locateCacheFile filenameMatchers files = Some (k, c)
           \<and> c \<in> set (matching k files)
           \<and> (\<forall>f\<in>set (matching k files). mtimeOf f \<le> mtimeOf c)
           \<and> c = last (filter (\<lambda>f. mtimeOf f = mtimeOf c) (matching k files))"
proof -
  let ?pc = "matching k files"
  let ?c = "last (sort_key mtimeOf ?pc)"
  from assms [unfolded locateCacheFile_key]
  have first: "find (hasMatch files) filenameMatchers = Some k" and k: "k \<noteq> []"
    by blast+
  have ne: "?pc \<noteq> []" using first by (rule find_hasMatch)
  have loc: "locateCacheFile filenameMatchers files = Some (k, ?c)"
    using first k by (simp add: locateCacheFile_char)
  have "sort_key mtimeOf ?pc \<noteq> []" using ne by (simp add: sort_key_Nil_iff)
  then have "?c \<in> set (sort_key mtimeOf ?pc)" by (rule last_in_set)
  then have mem: "?c \<in> set ?pc" by simp
  have mx: "\<forall>f\<in>set ?pc. mtimeOf f \<le> mtimeOf ?c"
    by (simp add: last_sort_key_max)
  have tie: "?c = last (filter (\<lambda>f. mtimeOf f = mtimeOf ?c) ?pc)"
    using ne by (rule last_sort_key_stable)
  from loc mem mx tie show ?thesis by blast
qed

text \<open>
  Which key the locator reports, in the terms of its own test. Let \<open>k\<close> be the first
  candidate, in the order primary key then restore keys (each as made by \<open>filenamify\<close>),
  whose text is contained in the name of a listed file, and let \<open>k\<close> not be empty. Then
  the locator reports \<open>k\<close>, on this listing and on every listing with the same file
  names, and \<open>restoreCache\<close> with a valid primary key returns \<open>k\<close> unless the unpack
  command fails. When the candidate of the primary key is contained in no listed name,
  \<open>k\<close> is the candidate of a restore key and differs from that of the primary key.
\<close>

lemma first_candidate_wins:
  assumes "find (hasMatch (cacheFilesOf w primaryKey restoreKeys))
             (filenameMatchersOf primaryKey restoreKeys) = Some k"
    and "k \<noteq> []"
  shows "(\<forall>files :: Entry list.
            map name files = map name (cacheFilesOf w primaryKey restoreKeys) \<longrightarrow>
            map_option fst (locateCacheFile (filenameMatchersOf primaryKey restoreKeys) files)
              = Some k)
       \<and> (length primaryKey \<le> 255 \<and> CHR '','' \<notin> set primaryKey \<longrightarrow>
            fst (restoreCache w (Some (p # ps)) primaryKey restoreKeys) = Inr (Some k)
            \<or> (\<exists>cmd. fst (restoreCache w (Some (p # ps)) primaryKey restoreKeys)
                        = Inl (ExecError cmd)))
       \<and> (\<not> hasMatch (cacheFilesOf w primaryKey restoreKeys) (filenamify primaryKey) \<longrightarrow>
             k \<noteq> filenamify primaryKey
             \<and> (\<exists>rks. restoreKeys = Some rks \<and> k \<in> set (map filenamify rks))
             \<and> (filenamify primaryKey = primaryKey \<longrightarrow> k \<noteq> primaryKey))"
proof (intro conjI allI impI)
  fix files :: "Entry list"
  assume "map name files = map name (cacheFilesOf w primaryKey restoreKeys)"
  then have "hasMatch files = hasMatch (cacheFilesOf w primaryKey restoreKeys)"
    by (simp add: hasMatch_names fun_eq_iff)
  with assms
  show "map_option fst (locateCacheFile (filenameMatchersOf primaryKey restoreKeys) files)
          = Some k"
    by (simp add: locateCacheFile_char)
next
  assume "length primaryKey \<le> 255 \<and> CHR '','' \<notin> set primaryKey"
  then have "length primaryKey \<le> 255" and "CHR '','' \<notin> set primaryKey" by simp_all
  then show "fst (restoreCache w (Some (p # ps)) primaryKey restoreKeys) = Inr (Some k)
      \<or> (\<exists>cmd. fst (restoreCache w (Some (p # ps)) primaryKey restoreKeys)
                  = Inl (ExecError cmd))"
    using assms by (rule restoreCache_found)
next
  assume no: "\<not> hasMatch (cacheFilesOf w primaryKey restoreKeys) (filenamify primaryKey)"
  from assms(1) have has: "hasMatch (cacheFilesOf w primaryKey restoreKeys) k"
    and mem: "k \<in> set (filenameMatchersOf primaryKey restoreKeys)"
    by (auto simp: find_Some_iff)
  from no has show ne: "k \<noteq> filenamify primaryKey" by auto
  from mem ne show "\<exists>rks. restoreKeys = Some rks \<and> k \<in> set (map filenamify rks)"
    by (cases restoreKeys) (auto simp: filenameMatchersOf_Cons)
  assume "filenamify primaryKey = primaryKey"
  with ne show "k \<noteq> primaryKey" by simp
qed

text \<open>
  With the empty primary key the only candidate is the empty string. A listed archive
  passes the test for it, and \<open>restoreCache\<close> reports no match: the guard
  \<open>!key\<close> of \<open>locateCacheFile\<close> is true of the empty string.
\<close>

lemma empty_key_no_match:
  "find (hasMatch (cacheFilesOf (runner [entry ''x.tar.lz4'' 1] idleShell) [] None))
        (filenameMatchersOf [] None) = Some []
   \<and> restoreCache (runner [entry ''x.tar.lz4'' 1] idleShell) (Some [''/w/data'']) [] None
       = (Inr None, runner [entry ''x.tar.lz4'' 1] idleShell)"
proof -
  have h: "find (hasMatch (cacheFilesOf (runner [entry ''x.tar.lz4'' 1] idleShell) [] None))
        (filenameMatchersOf [] None) = Some []"
    by code_simp
  then show ?thesis
    by (simp add: restoreCache_valid locateCacheFile_char)
qed

text \<open>
  Claim C2 at a failing input. The cache directory holds \<open>xfoo.tar.lz4\<close>. A restore with
  primary key \<open>foo\<close> and restore key \<open>x\<close> lists the file through the pattern \<open>x*\<close>, and
  the locator then counts it as a match for \<open>foo\<close>, which its name contains but does not
  start with: \<open>foo\<close> is returned, as for an exact hit, and the archive is unpacked.
\<close>

theorem substring_match_exact_hit:
  "\<not> prefix (filenamify ''foo'') (name (entry ''xfoo.tar.lz4'' 1))
   \<and> fst (restoreCache (runner [entry ''xfoo.tar.lz4'' 1] idleShell) (Some [''/w/data''])
            ''foo'' (Some [''x'']))
       = Inr (Some ''foo'')
   \<and> executed (snd (restoreCache (runner [entry ''xfoo.tar.lz4'' 1] idleShell)
                       (Some [''/w/data'']) ''foo'' (Some [''x''])))
       = [''lz4 -d -v -c /media/cache/o/r/xfoo.tar.lz4 2>/dev/null | tar xf - -C /w'']"
  by code_simp

text \<open>
  Claim C1 at a failing input. The cache directory holds \<open>xfoo.tar.lz4\<close>; the primary
  key is \<open>foo\<close> and the restore key is \<open>x\<close>. The first candidate with a file whose
  name starts with it is \<open>x\<close>, a restore key. \<open>restoreCache\<close> returns \<open>foo\<close>, the
  primary key, which reports an exact hit.
\<close>

theorem first_candidate_not_reported:
  "find (\<lambda>m. list_ex (\<lambda>f. prefix m (name f)) [entry ''xfoo.tar.lz4'' 1])
        (filenameMatchersOf ''foo'' (Some [''x''])) = Some ''x''
   \<and> fst (restoreCache (runner [entry ''xfoo.tar.lz4'' 1] idleShell) (Some [''/w/data''])
            ''foo'' (Some [''x'']))
       = Inr (Some ''foo'')"
  by code_simp

text \<open>
  Claim C3 at a failing input. The cache directory holds \<open>linux-build.tar.lz4\<close>,
  modified at time 2, and \<open>build-linux.tar.lz4\<close>, modified at time 1; the primary key
  \<open>zzz\<close> has no file and the restore keys are \<open>build\<close> and \<open>linux\<close>. The matched key is
  \<open>build\<close>, and the only file whose name starts with \<open>build\<close> is
  \<open>build-linux.tar.lz4\<close>. The archive that \<open>restoreCache\<close> unpacks is
  \<open>linux-build.tar.lz4\<close>: the newest of the files whose names contain \<open>build\<close>.
\<close>

theorem newest_entry_outside_prefix:
  "filter (\<lambda>f. prefix ''build'' (name f))
          [entry ''linux-build.tar.lz4'' 2, entry ''build-linux.tar.lz4'' 1]
       = [entry ''build-linux.tar.lz4'' 1]
   \<and> fst (restoreCache
            (runner [entry ''linux-build.tar.lz4'' 2, entry ''build-linux.tar.lz4'' 1] idleShell)
            (Some [''/w/data'']) ''zzz'' (Some [''build'', ''linux'']))
       = Inr (Some ''build'')
   \<and> executed (snd (restoreCache
            (runner [entry ''linux-build.tar.lz4'' 2, entry ''build-linux.tar.lz4'' 1] idleShell)
            (Some [''/w/data'']) ''zzz'' (Some [''build'', ''linux''])))
       = [''lz4 -d -v -c /media/cache/o/r/linux-build.tar.lz4 2>/dev/null | tar xf - -C /w'']"
  by code_simp

text \<open>
  When no candidate is contained in the name of a listed file, a call of \<open>restoreCache\<close>
  with a valid key and path list returns the no-match result and the world unchanged.
\<close>

lemma restore_miss:
  assumes "length primaryKey \<le> 255" and "CHR '','' \<notin> set primaryKey"
    and "paths = Some (p # ps)"
    and "\<forall>m\<in>set (filenameMatchersOf primaryKey restoreKeys).
           \<not> hasMatch (cacheFilesOf w primaryKey restoreKeys) m"
  shows "restoreCache w paths primaryKey restoreKeys = (Inr None, w)"
proof -
  have "find (hasMatch (cacheFilesOf w primaryKey restoreKeys))
          (filenameMatchersOf primaryKey restoreKeys) = None"
    using assms(4) by (simp add: find_None_iff)
  then show ?thesis
    using assms(1-3) by (simp add: restoreCache_valid locateCacheFile_char)
qed

text \<open>
  Claim C6 at a failing input. The cache directory holds \<open>xfoo.tar.lz4\<close>; the primary
  key is \<open>foo\<close> and the restore key is \<open>[x]\<close>, which \<open>filenamify\<close> leaves as it is.
  No candidate has a matching file: the name starts neither with \<open>foo\<close> nor with
  \<open>[x]\<close>. The key goes into the pattern \<open>[x]*\<close> as it is, \<open>fast-glob\<close> reads \<open>[x]\<close> as
  a character class and lists the file, and the locator finds \<open>foo\<close> inside its name:
  \<open>restoreCache\<close> returns \<open>foo\<close> and unpacks the archive.
\<close>

theorem miss_reported_as_hit:
  "\<not> prefix ''foo'' ''xfoo.tar.lz4'' \<and> \<not> prefix ''[x]'' ''xfoo.tar.lz4''
   \<and> filenameMatchersOf ''foo'' (Some [''[x]'']) = [''foo'', ''[x]'']
   \<and> fst (restoreCache
            ((runner [entry ''xfoo.tar.lz4'' 1] idleShell)
               \<lparr>glob := answering [''foo*'', ''[x]*'']
                          (\<lambda>n. prefix ''foo'' n \<or> prefix ''x'' n) plainGlob\<rparr>)
            (Some [''/w/data'']) ''foo'' (Some [''[x]'']))
       = Inr (Some ''foo'')
   \<and> executed (snd (restoreCache
            ((runner [entry ''xfoo.tar.lz4'' 1] idleShell)
               \<lparr>glob := answering [''foo*'', ''[x]*'']
                          (\<lambda>n. prefix ''foo'' n \<or> prefix ''x'' n) plainGlob\<rparr>)
            (Some [''/w/data'']) ''foo'' (Some [''[x]''])))
       = [''lz4 -d -v -c /media/cache/o/r/xfoo.tar.lz4 2>/dev/null | tar xf - -C /w'']"
  by code_simp

text \<open>
  Claim C10. \<open>restoreCache\<close> checks the primary key only. With a valid primary key and
  path list, no list of restore keys makes it fail with a \<open>ValidationError\<close>; every
  restore key, whatever its length and characters, becomes a candidate after the primary
  key, and when the first candidate with a matching file is a non-empty one,
  \<open>restoreCache\<close> returns it unless the unpack command fails.
\<close>

theorem restore_keys_not_validated:
  assumes "length primaryKey \<le> 255" and "CHR '','' \<notin> set primaryKey"
    and "paths = Some (p # ps)"
  shows "(\<forall>msg. fst (restoreCache w paths primaryKey (Some restoreKeys))
                  \<noteq> Inl (ValidationError msg))
       \<and> filenameMatchersOf primaryKey (Some restoreKeys)
           = map filenamify (primaryKey # restoreKeys)
       \<and> (\<forall>k. find (hasMatch (cacheFilesOf w primaryKey (Some restoreKeys)))
                  (map filenamify (primaryKey # restoreKeys)) = Some k \<and> k \<noteq> [] \<longrightarrow>
               fst (restoreCache w paths primaryKey (Some restoreKeys)) = Inr (Some k)
               \<or> (\<exists>cmd. fst (restoreCache w paths primaryKey (Some restoreKeys))
                           = Inl (ExecError cmd)))"
proof (intro conjI allI impI)
  fix msg
  show "fst (restoreCache w paths primaryKey (Some restoreKeys)) \<noteq> Inl (ValidationError msg)"
    unfolding assms(3) using assms(1,2)
    by (auto simp: restoreCache_valid execAsync_def split: option.splits prod.splits)
next
  show ms: "filenameMatchersOf primaryKey (Some restoreKeys)
          = map filenamify (primaryKey # restoreKeys)"
    by (simp add: filenameMatchersOf_Cons)
  fix k
  assume "find (hasMatch (cacheFilesOf w primaryKey (Some restoreKeys)))
            (map filenamify (primaryKey # restoreKeys)) = Some k \<and> k \<noteq> []"
  then have "find (hasMatch (cacheFilesOf w primaryKey (Some restoreKeys)))
            (filenameMatchersOf primaryKey (Some restoreKeys)) = Some k" and "k \<noteq> []"
    unfolding ms by simp_all
  with assms(1,2)
  show "fst (restoreCache w paths primaryKey (Some restoreKeys)) = Inr (Some k)
      \<or> (\<exists>cmd. fst (restoreCache w paths primaryKey (Some restoreKeys)) = Inl (ExecError cmd))"
    unfolding assms(3) by (rule restoreCache_found)
qed

theorem restore_keys_not_validated_witness:
  "fst (restoreCache (runner [entry ''old,v1-1.tar.lz4'' 1] idleShell) (Some [''/w/data''])
          ''deps'' (Some [''old,v1'']))
     = Inr (Some ''old,v1'')
   \<and> fst (restoreCache (runner [entry ''old,v1-1.tar.lz4'' 1] idleShell) (Some [''/w/data''])
          ''deps'' (Some [replicate 256 (CHR ''k'')]))
     = Inr None"
proof -
  let ?w = "runner [entry ''old,v1-1.tar.lz4'' 1] idleShell"
  let ?r = "restoreCache ?w (Some [''/w/data'']) ''deps'' (Some [''old,v1''])"
  note t = restore_keys_not_validated [of "''deps''" "Some [''/w/data'']" "''/w/data''" "[]" ?w]
  have h: "find (hasMatch (cacheFilesOf ?w ''deps'' (Some [''old,v1''])))
             (map filenamify [''deps'', ''old,v1'']) = Some ''old,v1''"
    by code_simp
  have "fst ?r = Inr (Some ''old,v1'') \<or> (\<exists>cmd. fst ?r = Inl (ExecError cmd))"
    using t [of "[''old,v1'']"] h by simp
  moreover have "fst ?r \<noteq> Inl (ExecError cmd)" for cmd
    by (simp add: restoreCache_valid execAsync_def runner_def idleShell_def info_def
          split: option.splits prod.splits)
  ultimately have a: "fst ?r = Inr (Some ''old,v1'')" by blast
  have b: "fst (restoreCache ?w (Some [''/w/data'']) ''deps'' (Some [replicate 256 (CHR ''k'')]))
             = Inr None"
    by code_simp
  from a b show ?thesis by (intro conjI)
qed

section \<open>Save and restore\<close>

text \<open>
  The paths after the first are not read: \<open>saveCache\<close> and \<open>restoreCache\<close> return the
  same result and world as with the first path alone. A successful save has run
  \<open>mkdir -p\<close> and then the pack command, into which \<open>dirname\<close> and \<open>basename\<close> of the
  first path are spliced; a successful restore has run the unpack command, into which
  the path of the located archive and \<open>dirname\<close> of the first path are spliced.
\<close>

lemma first_path_only:
  "saveCache w (Some (p # ps)) key = saveCache w (Some [p]) key
   \<and> restoreCache w (Some (p # ps)) primaryKey restoreKeys
       = restoreCache w (Some [p]) primaryKey restoreKeys
   \<and> (\<forall>n w'. saveCache w (Some (p # ps)) key = (Inr n, w') \<longrightarrow>
         executed w' = executed w @
           [''mkdir -p '' @ getCacheDirPath w,
            saveCmd (dirname p) (basename p)
              (join [getCacheDirPath w, filenamify key @ ''.tar.lz4''])])
   \<and> (\<forall>k w'. restoreCache w (Some (p # ps)) primaryKey restoreKeys = (Inr (Some k), w') \<longrightarrow>
         (\<exists>c. locateCacheFile (filenameMatchersOf primaryKey restoreKeys)
                 (cacheFilesOf w primaryKey restoreKeys) = Some (k, c)
             \<and> executed w' = executed w @
                 [restoreCmd (join [getCacheDirPath w, path c]) (dirname p)]))"
proof (intro conjI allI impI)
  show "saveCache w (Some (p # ps)) key = saveCache w (Some [p]) key"
    by (cases "checkKey key") (simp_all add: saveCache_def checkPaths_def)
  show "restoreCache w (Some (p # ps)) primaryKey restoreKeys
          = restoreCache w (Some [p]) primaryKey restoreKeys"
    by (cases "checkKey primaryKey") (simp_all add: restoreCache_def checkPaths_def)
next
  fix n w' assume "saveCache w (Some (p # ps)) key = (Inr n, w')"
  then show "executed w' = executed w @
           [''mkdir -p '' @ getCacheDirPath w,
            saveCmd (dirname p) (basename p)
              (join [getCacheDirPath w, filenamify key @ ''.tar.lz4''])]"
    by (rule saveCache_Inr)
next
  fix k w' assume "restoreCache w (Some (p # ps)) primaryKey restoreKeys = (Inr (Some k), w')"
  then show "\<exists>c. locateCacheFile (filenameMatchersOf primaryKey restoreKeys)
                 (cacheFilesOf w primaryKey restoreKeys) = Some (k, c)
             \<and> executed w' = executed w @
                 [restoreCmd (join [getCacheDirPath w, path c]) (dirname p)]"
    by (rule restoreCache_Some)
qed

text \<open>
  Claim C7 at a failing input. The only path is \<open>/w/my data\<close>. The pack command that
  \<open>saveCache\<close> runs has the last component of the path spliced in without quotes, so
  that the shell hands \<open>tar\<close> the two members \<open>my\<close> and \<open>data\<close> of \<open>/w\<close> to archive,
  not the directory \<open>my data\<close>.
\<close>

theorem path_with_space_split:
  "executed (snd (saveCache (runner [] idleShell) (Some [''/w/my data'']) ''k''))
     = [''mkdir -p /media/cache/o/r'',
        ''tar cf - -C /w my data | lz4 -v > /media/cache/o/r/k.tar.lz4 2>/dev/null'']"
  by code_simp

text \<open>
  When the archive of a key is among the listed files, a restore with that key alone
  returns the file name made from the key (unless the unpack command fails, or that file
  name is empty). That is the key itself exactly when \<open>filenamify\<close> leaves the key as it
  is.
\<close>

lemma restore_after_save:
  assumes "length K \<le> 255" and "CHR '','' \<notin> set K" and "filenamify K \<noteq> []"
    and "f \<in> set (cacheFilesOf w K None)" and "name f = filenamify K @ ''.tar.lz4''"
  shows "fst (restoreCache w (Some (p # ps)) K None) = Inr (Some (filenamify K))
       \<or> (\<exists>cmd. fst (restoreCache w (Some (p # ps)) K None) = Inl (ExecError cmd))"
proof -
  have "indexOf (name f) (filenamify K) \<noteq> - 1"
    using assms(5) by (simp add: indexOf_prefix)
  with assms(4) have "hasMatch (cacheFilesOf w K None) (filenamify K)"
    by (auto simp: hasMatch_def list_ex_iff)
  then have "find (hasMatch (cacheFilesOf w K None)) (filenameMatchersOf K None)
               = Some (filenamify K)"
    by (simp add: filenameMatchersOf_def)
  with assms(1,2) show ?thesis
    using assms(3) by (rule restoreCache_found)
qed

text \<open>
  Claim C4 at a failing input. \<open>saveCache\<close> with the key \<open>a/b\<close> writes
  \<open>a!b.tar.lz4\<close>; \<open>restoreCache\<close> with the same key on the resulting cache directory
  finds it and returns \<open>a!b\<close>, which is not the key.
\<close>

theorem sanitized_key_returned:
  "executed (snd (saveCache (runner []
       (packShell ''tar cf - -C /w data | lz4 -v > /media/cache/o/r/a!b.tar.lz4 2>/dev/null''
          ''/media/cache/o/r'' (entry ''a!b.tar.lz4'' 5)))
     (Some [''/w/data'']) ''a/b''))
     = [''mkdir -p /media/cache/o/r'',
        ''tar cf - -C /w data | lz4 -v > /media/cache/o/r/a!b.tar.lz4 2>/dev/null'']
   \<and> fst (restoreCache
        (snd (saveCache (runner []
           (packShell ''tar cf - -C /w data | lz4 -v > /media/cache/o/r/a!b.tar.lz4 2>/dev/null''
              ''/media/cache/o/r'' (entry ''a!b.tar.lz4'' 5)))
         (Some [''/w/data'']) ''a/b''))
        (Some [''/w/data'']) ''a/b'' None)
     = Inr (Some ''a!b'')
   \<and> ''a!b'' \<noteq> ''a/b''"
  by code_simp

section \<open>The path of a cache entry\<close>

lemma splitSlash_single: "CHR ''/'' \<notin> set n \<Longrightarrow> splitSlash n = [n]"
  by (induction n) auto

lemma splitSlash_nonempty: "splitSlash x \<noteq> []"
  by (induction x) (auto split: list.splits)

lemma splitSlash_snoc:
  "CHR ''/'' \<notin> set n \<Longrightarrow> splitSlash (x @ CHR ''/'' # n) = splitSlash x @ [n]"
  by (induction x) (auto simp: splitSlash_single splitSlash_nonempty split: list.splits)

lemma normSegments_snoc:
  "n \<noteq> [] \<Longrightarrow> n \<noteq> ''.'' \<Longrightarrow> n \<noteq> ''..'' \<Longrightarrow>
     normSegments a (xs @ [n]) res = normSegments a xs res @ [n]"
  by (induction xs arbitrary: res) auto

lemma joinSlash_snoc:
  "joinSlash (ys @ [n]) = (if ys = [] then n else joinSlash ys @ CHR ''/'' # n)"
  by (induction ys rule: joinSlash.induct) auto

lemma takeWhile_upto: "c \<notin> set xs \<Longrightarrow> takeWhile (\<lambda>d. d \<noteq> c) (xs @ c # ys) = xs"
  by (induction xs) auto

lemma takeWhile_all: "c \<notin> set xs \<Longrightarrow> takeWhile (\<lambda>d. d \<noteq> c) xs = xs"
  by (induction xs) auto

lemma basename_after_slash:
  "CHR ''/'' \<notin> set n \<Longrightarrow> n \<noteq> [] \<Longrightarrow> basename (x @ CHR ''/'' # n) = n"
proof -
  assume a: "CHR ''/'' \<notin> set n" and b: "n \<noteq> []"
  have c: "dropWhile (\<lambda>d. d = CHR ''/'') (rev n @ CHR ''/'' # rev x) = rev n @ CHR ''/'' # rev x"
    using a b by (cases "rev n") auto
  have t: "takeWhile (\<lambda>d. d \<noteq> CHR ''/'') (rev n @ CHR ''/'' # rev x) = rev n"
    using a by (intro takeWhile_upto) simp
  have r: "rev (x @ CHR ''/'' # n) = rev n @ CHR ''/'' # rev x" by simp
  show ?thesis unfolding basename_def r c t by simp
qed

lemma basename_plain: "CHR ''/'' \<notin> set n \<Longrightarrow> n \<noteq> [] \<Longrightarrow> basename n = n"
proof -
  assume a: "CHR ''/'' \<notin> set n" and b: "n \<noteq> []"
  have c: "dropWhile (\<lambda>d. d = CHR ''/'') (rev n) = rev n"
    using a b by (cases "rev n") auto
  have t: "takeWhile (\<lambda>d. d \<noteq> CHR ''/'') (rev n) = rev n"
    using a by (intro takeWhile_all) simp
  show ?thesis unfolding basename_def c t by simp
qed

lemma normalizePath_ends:
  assumes "CHR ''/'' \<notin> set n" and "n \<noteq> []" and "n \<noteq> ''.''" and "n \<noteq> ''..''"
    and "P = n \<or> (\<exists>x. P = x @ CHR ''/'' # n)"
  shows "basename (normalizePath P) = n"
proof -
  from assms(5) obtain xs where sp: "splitSlash P = xs @ [n]"
    using splitSlash_single [OF assms(1)] splitSlash_snoc [OF assms(1)] by (metis append_Nil)
  have ne: "P \<noteq> []" using assms(2,5) by auto
  have lastP: "last P = last n" using assms(2,5) by auto
  have "last n \<in> set n" using assms(2) by simp
  with assms(1) have nt: "last P \<noteq> CHR ''/''" unfolding lastP by metis
  let ?ys = "normSegments (hd P \<noteq> CHR ''/'') xs []"
  have q: "joinSlash (normSegments (hd P \<noteq> CHR ''/'') (splitSlash P) [])
             = (if ?ys = [] then n else joinSlash ?ys @ CHR ''/'' # n)"
    unfolding sp by (simp add: normSegments_snoc assms joinSlash_snoc)
  show ?thesis
  proof (cases "?ys = []")
    case True
    with q ne nt assms(2) have "normalizePath P = (if hd P = CHR ''/'' then ''/'' else []) @ n"
      by (simp add: normalizePath_def Let_def)
    then show ?thesis
      using basename_after_slash [OF assms(1,2), of "[]"] basename_plain [OF assms(1,2)]
      by (cases "hd P = CHR ''/''") simp_all
  next
    case False
    with q ne nt have "normalizePath P
        = ((if hd P = CHR ''/'' then ''/'' else []) @ joinSlash ?ys) @ CHR ''/'' # n"
      by (simp add: normalizePath_def Let_def)
    then show ?thesis
      by (simp only: basename_after_slash [OF assms(1,2)])
  qed
qed

lemma basename_join:
  assumes "CHR ''/'' \<notin> set n" and "n \<noteq> []" and "n \<noteq> ''.''" and "n \<noteq> ''..''"
  shows "basename (join [d, n]) = n"
proof -
  have "join [d, n] = normalizePath (if d = [] then n else d @ CHR ''/'' # n)"
    using assms(2) by (simp add: join_def)
  moreover have "basename (normalizePath (if d = [] then n else d @ CHR ''/'' # n)) = n"
    by (rule normalizePath_ends [OF assms]) auto
  ultimately show ?thesis by simp
qed

lemma set_replaceRelativePath: "set (replaceRelativePath s) \<subseteq> insert (CHR ''!'') (set s)"
  by (auto simp: replaceRelativePath_def split: list.splits dest: set_dropWhileD)

lemma set_dropTrailingPeriods: "set (dropTrailingPeriods s) \<subseteq> set s"
  by (auto simp: dropTrailingPeriods_def dest: set_dropWhileD)

lemma set_trimRepeated: "set (trimRepeated s) \<subseteq> set s"
  by (induction s rule: trimRepeated.induct) auto

lemma set_stripOuter: "set (stripOuter s) \<subseteq> set s"
  by (auto simp: stripOuter_def Let_def split: list.splits if_splits dest: in_set_butlastD)

lemma filenamify_no_slash: "CHR ''/'' \<notin> set (filenamify key)"
proof -
  let ?s1 = "map (\<lambda>c. if reservedChar c then CHR ''!'' else c) key"
  let ?s2 = "map (\<lambda>c. if controlChar c then CHR ''!'' else c) ?s1"
  let ?s5 = "trimRepeated (dropTrailingPeriods (replaceRelativePath ?s2))"
  let ?s6 = "if length ?s5 > 1 then stripOuter ?s5 else ?s5"
  have "CHR ''/'' \<notin> set ?s1" by (auto simp: reservedChar_def)
  then have "CHR ''/'' \<notin> set ?s2" by auto
  then have "CHR ''/'' \<notin> set (replaceRelativePath ?s2)"
    using set_replaceRelativePath [of ?s2] by auto
  then have "CHR ''/'' \<notin> set ?s5"
    using set_trimRepeated set_dropTrailingPeriods by blast
  then have "CHR ''/'' \<notin> set ?s6"
    using set_stripOuter [of ?s5] by auto
  then have "CHR ''/'' \<notin> set (if windowsName ?s6 then ?s6 @ ''!'' else ?s6)"
    by auto
  then show ?thesis
    unfolding filenamify_def Let_def by (meson in_set_takeD)
qed

text \<open>
  The path that \<open>saveCache\<close> splices into the pack command after \<open>>\<close> is the join of
  \<open>CACHE_DIR\<close> (or \<open>/media/cache/\<close> when it is unset or empty), \<open>GITHUB_REPOSITORY\<close> and
  the file name \<open>filenamify key\<close> followed by \<open>.tar.lz4\<close>; that file name is its last
  component.
\<close>

lemma save_entry_path:
  assumes "saveCache w (Some (p # ps)) key = (Inr n, w')"
  shows "executed w' = executed w @
           [''mkdir -p ''
              @ join [orElse (env_CACHE_DIR w) ''/media/cache/'',
                      orElse (env_GITHUB_REPOSITORY w) []],
            saveCmd (dirname p) (basename p)
              (join [join [orElse (env_CACHE_DIR w) ''/media/cache/'',
                           orElse (env_GITHUB_REPOSITORY w) []],
                     filenamify key @ ''.tar.lz4''])]
       \<and> basename (join [join [orElse (env_CACHE_DIR w) ''/media/cache/'',
                                orElse (env_GITHUB_REPOSITORY w) []],
                          filenamify key @ ''.tar.lz4''])
           = filenamify key @ ''.tar.lz4''"
proof
  show "executed w' = executed w @
           [''mkdir -p ''
              @ join [orElse (env_CACHE_DIR w) ''/media/cache/'',
                      orElse (env_GITHUB_REPOSITORY w) []],
            saveCmd (dirname p) (basename p)
              (join [join [orElse (env_CACHE_DIR w) ''/media/cache/'',
                           orElse (env_GITHUB_REPOSITORY w) []],
                     filenamify key @ ''.tar.lz4''])]"
    using saveCache_Inr [OF assms] by (simp add: getCacheDirPath_def)
  have "CHR ''/'' \<notin> set (filenamify key @ ''.tar.lz4'')"
    using filenamify_no_slash [of key] by simp
  moreover have "filenamify key @ ''.tar.lz4'' \<noteq> ''.''"
    and "filenamify key @ ''.tar.lz4'' \<noteq> ''..''"
    by (auto simp: append_eq_Cons_conv)
  ultimately show "basename (join [join [orElse (env_CACHE_DIR w) ''/media/cache/'',
                                orElse (env_GITHUB_REPOSITORY w) []],
                          filenamify key @ ''.tar.lz4''])
           = filenamify key @ ''.tar.lz4''"
    by (intro basename_join) simp_all
qed

text \<open>
  Claim C8 at a failing input. The key is \<open>a #\<close>, which is valid and which \<open>filenamify\<close>
  leaves as it is. The pack command that \<open>saveCache\<close> runs has the path of the entry
  spliced in without quotes: the shell redirects the output to \<open>/media/cache/o/r/a\<close> and
  takes the rest of the line, from \<open>#\<close>, for a comment, so that no file
  \<open>/media/cache/o/r/a #.tar.lz4\<close> is written.
\<close>

theorem key_with_hash_split:
  "checkKey ''a #'' = Inr () \<and> filenamify ''a #'' = ''a #''
   \<and> executed (snd (saveCache (runner [] idleShell) (Some [''/w/data'']) ''a #''))
     = [''mkdir -p /media/cache/o/r'',
        ''tar cf - -C /w data | lz4 -v > /media/cache/o/r/a #.tar.lz4 2>/dev/null'']"
  by code_simp

end
